theory Spec2Isabelle
  imports Complex_Main "HOL-Library.Word"
begin

section \<open>Glyph width estimator\<close>

text \<open>
  \<^verbatim>\<open>calculateTextWidth(text, fontSize)\<close> of \<^verbatim>\<open>src/index.js\<close>. JavaScript numbers
  are read as exact rationals: the products and sums below are the mathematical ones,
  without the rounding of IEEE doubles. A character is one element of the iterated
  string.
\<close>

definition narrowChars :: "char set" where
  "narrowChars = set ''ijl,.'' \<union> {CHR 0x27, CHR 0x22} \<union> set ''|!()[]{}/-_''"

definition wideChars :: "char set" where
  "wideChars = set ''mwWM@QOCDG%&#AHNUX''"

definition spaceChars :: "char set" where
  "spaceChars = {CHR '' '', CHR 0x09}"

definition ratio_default :: rat where "ratio_default = 55 / 100"
definition ratio_narrow :: rat where "ratio_narrow = 35 / 100"
definition ratio_wide :: rat where "ratio_wide = 75 / 100"
definition ratio_space :: rat where "ratio_space = 3 / 10"

definition charRatio :: "char \<Rightarrow> rat" where
  "charRatio c =
     (if c \<in> spaceChars then ratio_space
      else if c \<in> narrowChars then ratio_narrow
      else if c \<in> wideChars then ratio_wide
      else ratio_default)"

definition calculateTextWidth :: "string \<Rightarrow> rat \<Rightarrow> rat" where
  "calculateTextWidth text fontSize =
     fold (\<lambda>c totalWidth. totalWidth + fontSize * charRatio c) text 0"

section \<open>Empty-region finder\<close>

text \<open>
  \<^verbatim>\<open>findEmptyRegions(imageBuffer, minWidth = 100, minHeight = 30)\<close>. The decoded
  single-channel raster (\<^verbatim>\<open>info.width\<close>, \<^verbatim>\<open>info.height\<close>, \<^verbatim>\<open>data\<close>) is the input of
  the model; decoding itself belongs to the image library. Pixels and grid cells are
  bytes. A region is the object \<^verbatim>\<open>{x, y, width, height}\<close>; the fields \<^verbatim>\<open>x\<close> and \<^verbatim>\<open>y\<close>
  are called \<open>xpos\<close> and \<open>ypos\<close> here. The emitted rectangle extends it by
  \<^verbatim>\<open>type\<close>, \<^verbatim>\<open>color\<close>, \<^verbatim>\<open>strokeWidth\<close> and \<^verbatim>\<open>area\<close>.
\<close>

type_synonym byte = "8 word"

record raster =
  info_width :: nat
  info_height :: nat
  data :: "byte list"

record region =
  xpos :: int
  ypos :: int
  width :: int
  height :: int

record rectangle = region +
  rtype :: string
  color :: string
  strokeWidth :: int
  area :: int

definition cellSize :: nat where
  "cellSize = 5"

text \<open>\<^verbatim>\<open>Math.ceil(n / cellSize)\<close> for a size \<open>n\<close> in pixels.\<close>

definition ceilCells :: "nat \<Rightarrow> nat" where
  "ceilCells n = (n + cellSize - 1) div cellSize"

text \<open>\<^verbatim>\<open>Math.ceil(minHeight / cellSize)\<close> for an integer \<^verbatim>\<open>minHeight\<close> of any sign.\<close>

definition ceilMinHeight :: "int \<Rightarrow> int" where
  "ceilMinHeight minHeight = - ((- minHeight) div int cellSize)"

text \<open>
  \<^verbatim>\<open>data[i] < 200\<close>: a read past the end of the buffer is \<^verbatim>\<open>undefined\<close>, and
  \<^verbatim>\<open>undefined < 200\<close> is false.
\<close>

definition pixelDark :: "byte list \<Rightarrow> nat \<Rightarrow> bool" where
  "pixelDark d i = (i < length d \<and> d ! i < 200)"

text \<open>The two nested loops that mark the occupied cells of the grid.\<close>

definition markPixel :: "raster \<Rightarrow> nat \<Rightarrow> nat \<Rightarrow> byte list \<Rightarrow> byte list" where
  "markPixel img py px grid =
     (if pixelDark (data img) (py * info_width img + px)
      then grid[(py div cellSize) * ceilCells (info_width img) + px div cellSize := 1]
      else grid)"

definition markCells :: "raster \<Rightarrow> byte list" where
  "markCells img =
     fold (\<lambda>py grid. fold (markPixel img py) [0..<info_width img] grid)
       [0..<info_height img]
       (replicate (ceilCells (info_width img) * ceilCells (info_height img)) 0)"

definition isRowEmpty :: "byte list \<Rightarrow> nat \<Rightarrow> nat \<Rightarrow> bool" where
  "isRowEmpty grid gridWidth gy =
     list_all (\<lambda>gx. grid ! (gy * gridWidth + gx) \<noteq> 1) [0..<gridWidth]"

record scan_state =
  currentEmptyHeight :: nat
  startY :: nat
  regions :: "region list"

definition emptyRun :: "nat \<Rightarrow> scan_state \<Rightarrow> region" where
  "emptyRun imgWidth st =
     \<lparr>xpos = 0, ypos = int (startY st * cellSize), width = int imgWidth,
      height = int (currentEmptyHeight st * cellSize)\<rparr>"

definition pushIfTall :: "nat \<Rightarrow> int \<Rightarrow> scan_state \<Rightarrow> region list" where
  "pushIfTall imgWidth minHeight st =
     (if int (currentEmptyHeight st) \<ge> ceilMinHeight minHeight
      then regions st @ [emptyRun imgWidth st] else regions st)"

definition scanRow :: "byte list \<Rightarrow> nat \<Rightarrow> nat \<Rightarrow> int \<Rightarrow> nat \<Rightarrow> scan_state \<Rightarrow> scan_state" where
  "scanRow grid gridWidth imgWidth minHeight gy st =
     (if isRowEmpty grid gridWidth gy
      then st\<lparr>startY := (if currentEmptyHeight st = 0 then gy else startY st),
              currentEmptyHeight := currentEmptyHeight st + 1\<rparr>
      else st\<lparr>regions := pushIfTall imgWidth minHeight st, currentEmptyHeight := 0\<rparr>)"

definition scanRows :: "byte list \<Rightarrow> nat \<Rightarrow> nat \<Rightarrow> nat \<Rightarrow> int \<Rightarrow> region list" where
  "scanRows grid gridWidth gridHeight imgWidth minHeight =
     pushIfTall imgWidth minHeight
       (fold (scanRow grid gridWidth imgWidth minHeight) [0..<gridHeight]
          \<lparr>currentEmptyHeight = 0, startY = 0, regions = []\<rparr>)"

text \<open>
  Merging of close regions: \<open>None\<close> is the initial \<^verbatim>\<open>currentRegion = null\<close>.
\<close>

fun mergeStep :: "region \<Rightarrow> region option \<times> region list \<Rightarrow> region option \<times> region list" where
  "mergeStep r (None, merged) = (Some r, merged)"
| "mergeStep r (Some cur, merged) =
     (if ypos r - (ypos cur + height cur) < int (cellSize * 4)
      then (Some (cur\<lparr>height := ypos r + height r - ypos cur\<rparr>), merged)
      else (Some r, merged @ [cur]))"

definition mergeRegions :: "region list \<Rightarrow> region list" where
  "mergeRegions rs =
     (case fold mergeStep rs (None, []) of
        (None, merged) \<Rightarrow> merged
      | (Some cur, merged) \<Rightarrow> merged @ [cur])"

definition toRectangle :: "region \<Rightarrow> rectangle" where
  "toRectangle r =
     \<lparr>xpos = xpos r, ypos = ypos r, width = width r, height = height r,
      rtype = ''rectangle'', color = ''blue'', strokeWidth = 1,
      area = width r * height r\<rparr>"

text \<open>
  \<^verbatim>\<open>sort((a, b) => b.area - a.area)\<close> is a stable sort by descending area; it is
  the stable insertion sort on the key \<open>- area\<close>. The parameter \<^verbatim>\<open>minWidth\<close> is not
  used by the source.
\<close>

definition findEmptyRegions :: "raster \<Rightarrow> int \<Rightarrow> int \<Rightarrow> rectangle list" where
  "findEmptyRegions img minWidth minHeight =
     (let gridWidth = ceilCells (info_width img);
          gridHeight = ceilCells (info_height img);
          grid = markCells img;
          found = scanRows grid gridWidth gridHeight (info_width img) minHeight;
          mergedRegions = mergeRegions found
      in sort_key (\<lambda>r. - area r)
           (map toRectangle (filter (\<lambda>r. height r \<ge> minHeight) mergedRegions)))"

section \<open>Rich-text model\<close>

text \<open>
  A segment is \<^verbatim>\<open>{start, length}\<close> (character counts); a colour segment also has
  \<^verbatim>\<open>color\<close>. A paragraph is \<^verbatim>\<open>{text, colorSegments, boldSegments}\<close>, the record \<open>para\<close>.
  Strings are lists of characters, one element for each step of
  \<^verbatim>\<open>for (const char of text)\<close>.
\<close>

record segment =
  seg_start :: nat
  seg_length :: nat

record colorSegment = segment +
  seg_color :: string

record para =
  para_text :: string
  colorSegments :: "colorSegment list"
  boldSegments :: "segment list"

section \<open>Font-size solver\<close>

text \<open>
  A JavaScript number that may be \<^verbatim>\<open>NaN\<close>: the initial size estimate divides by the
  number of characters, which may be zero.
\<close>

datatype jsnum = Num rat | NaN

record fontplan =
  normalFontSize :: jsnum
  boldFontSize :: jsnum
  lineSpacingRatio :: rat
  estimatedLines :: nat

definition jsTimes :: "jsnum \<Rightarrow> rat \<Rightarrow> jsnum" where
  "jsTimes v k = (case v of Num r \<Rightarrow> Num (r * k) | NaN \<Rightarrow> NaN)"

definition effectiveWidthOf :: "region \<Rightarrow> rat" where
  "effectiveWidthOf r = of_int (width r) * (85 / 100)"

definition effectiveHeightOf :: "region \<Rightarrow> rat" where
  "effectiveHeightOf r = of_int (height r) * (9 / 10)"

definition totalCharsOf :: "para list \<Rightarrow> nat" where
  "totalCharsOf ps = fold (\<lambda>para n. n + length (para_text para)) ps 0"

definition boldCharsOf :: "para list \<Rightarrow> nat" where
  "boldCharsOf ps =
     fold (\<lambda>para n. fold (\<lambda>seg m. m + seg_length seg) (boldSegments para) n) ps 0"

text \<open>
  \<^verbatim>\<open>initialSize\<close>. With \<open>totalChars = 0\<close> the ratio \<^verbatim>\<open>boldChars / totalChars\<close> is
  \<^verbatim>\<open>NaN\<close> (for \<open>0 / 0\<close>), which \<^verbatim>\<open>Math.min\<close> returns, or \<^verbatim>\<open>Infinity\<close> (for a positive
  \<open>boldChars\<close>), which makes the second argument of \<^verbatim>\<open>Math.min\<close> zero. A positive
  character count implies a non-empty para list, so the first division is by a
  positive number in every case that is not \<^verbatim>\<open>NaN\<close>.
\<close>

definition initialSize :: "region \<Rightarrow> para list \<Rightarrow> jsnum" where
  "initialSize r ps =
     (let totalChars = totalCharsOf ps; boldChars = boldCharsOf ps
      in if totalChars = 0 \<and> boldChars = 0 then NaN
         else
           let byHeight = \<lfloor>effectiveHeightOf r / (of_nat (length ps) * (3 / 2))\<rfloor>;
               byWidth =
                 (if totalChars = 0 then 0
                  else \<lfloor>effectiveWidthOf r / (20 + (of_nat boldChars / of_nat totalChars) * 5)\<rfloor>)
           in Num (of_int (min byHeight byWidth)))"

record trial_state =
  testLines :: "string list"
  totalHeight :: rat
  fitsFailed :: bool

record line_state =
  currentLine :: string
  lineWidth :: rat
  position :: nat

definition inSegment :: "nat \<Rightarrow> segment \<Rightarrow> bool" where
  "inSegment pos seg = (pos \<ge> seg_start seg \<and> pos < seg_start seg + seg_length seg)"

text \<open>
  The loop over the characters of one paragraph. It returns when the characters are
  used up or at the \<^verbatim>\<open>break\<close> that follows \<^verbatim>\<open>fitsFailed = true\<close>.
\<close>

fun charLoop ::
  "rat \<Rightarrow> rat \<Rightarrow> rat \<Rightarrow> segment list \<Rightarrow> string \<Rightarrow> line_state \<times> trial_state
     \<Rightarrow> line_state \<times> trial_state" where
  "charLoop fontSize effW effH bolds [] st = st"
| "charLoop fontSize effW effH bolds (c # cs) (ls, ts) =
     (let isBoldChar = list_ex (inSegment (position ls)) bolds;
          charWidth = calculateTextWidth [c] (if isBoldChar then fontSize * (11 / 10) else fontSize);
          lineHeight = fontSize * (12 / 10)
      in if lineWidth ls + charWidth \<le> effW
         then charLoop fontSize effW effH bolds cs
                (ls\<lparr>currentLine := currentLine ls @ [c],
                    lineWidth := lineWidth ls + charWidth,
                    position := position ls + 1\<rparr>, ts)
         else if currentLine ls \<noteq> []
         then
           (let ts' = ts\<lparr>testLines := testLines ts @ [currentLine ls],
                          totalHeight := totalHeight ts + lineHeight\<rparr>
            in if totalHeight ts' > effH
               then (ls, ts'\<lparr>fitsFailed := True\<rparr>)
               else charLoop fontSize effW effH bolds cs
                      (ls\<lparr>currentLine := [c], lineWidth := charWidth,
                          position := position ls + 1\<rparr>, ts'))
         else charLoop fontSize effW effH bolds cs
                (ls\<lparr>currentLine := [c], lineWidth := charWidth,
                    position := position ls + 1\<rparr>, ts))"

text \<open>
  The body of \<^verbatim>\<open>paragraphs.forEach((para, index) => ...)\<close>. The \<^verbatim>\<open>return\<close> after the
  character loop leaves this paragraph only; the following ones are still visited.
\<close>

definition paraStep :: "rat \<Rightarrow> rat \<Rightarrow> rat \<Rightarrow> nat \<times> para \<Rightarrow> trial_state \<Rightarrow> trial_state" where
  "paraStep fontSize effW effH ip ts =
     (let lineHeight = fontSize * (12 / 10);
          ts1 = (if fst ip > 0 then ts\<lparr>totalHeight := totalHeight ts + lineHeight * (1 / 2)\<rparr> else ts);
          (ls, ts2) = charLoop fontSize effW effH (boldSegments (snd ip)) (para_text (snd ip))
                        (\<lparr>currentLine = [], lineWidth = 0, position = 0\<rparr>, ts1)
      in if fitsFailed ts2 then ts2
         else if currentLine ls \<noteq> []
         then
           (let ts3 = ts2\<lparr>testLines := testLines ts2 @ [currentLine ls],
                           totalHeight := totalHeight ts2 + lineHeight\<rparr>
            in if totalHeight ts3 > effH then ts3\<lparr>fitsFailed := True\<rparr> else ts3)
         else ts2)"

definition runTrial :: "rat \<Rightarrow> rat \<Rightarrow> rat \<Rightarrow> para list \<Rightarrow> trial_state" where
  "runTrial fontSize effW effH ps =
     fold (paraStep fontSize effW effH) (enumerate 0 ps)
       \<lparr>testLines = [], totalHeight = 0, fitsFailed = False\<rparr>"

definition trialFits :: "rat \<Rightarrow> trial_state \<Rightarrow> bool" where
  "trialFits effH ts = (\<not> fitsFailed ts \<and> totalHeight ts \<le> effH \<and> length (testLines ts) > 0)"

record search_state =
  minSize :: int
  maxSize :: int
  bestSize :: jsnum
  bestLines :: "string list"
  iterations :: nat

definition maxIterations :: nat where
  "maxIterations = 10"

definition searchStep :: "rat \<Rightarrow> rat \<Rightarrow> para list \<Rightarrow> search_state \<Rightarrow> search_state" where
  "searchStep effW effH ps s =
     (let fontSize = (minSize s + maxSize s) div 2;
          ts = runTrial (of_int fontSize) effW effH ps
      in if trialFits effH ts
         then s\<lparr>bestSize := Num (of_int fontSize), bestLines := testLines ts,
                minSize := fontSize + 1, iterations := iterations s + 1\<rparr>
         else s\<lparr>maxSize := fontSize - 1, iterations := iterations s + 1\<rparr>)"

function searchLoop :: "rat \<Rightarrow> rat \<Rightarrow> para list \<Rightarrow> search_state \<Rightarrow> search_state" where
  "searchLoop effW effH ps s =
     (if minSize s \<le> maxSize s \<and> iterations s < maxIterations
      then searchLoop effW effH ps (searchStep effW effH ps s)
      else s)"
  by pat_completeness auto
termination
  by (relation "measure (\<lambda>(effW, effH, ps, s). maxIterations - iterations s)")
     (auto simp: searchStep_def Let_def)

definition searchStart :: "region \<Rightarrow> para list \<Rightarrow> search_state" where
  "searchStart r ps =
     \<lparr>minSize = 14, maxSize = 72, bestSize = initialSize r ps, bestLines = [], iterations = 0\<rparr>"

definition searchResult :: "region \<Rightarrow> para list \<Rightarrow> search_state" where
  "searchResult r ps = searchLoop (effectiveWidthOf r) (effectiveHeightOf r) ps (searchStart r ps)"

text \<open>
  The \<^verbatim>\<open>try\<close> block and the \<^verbatim>\<open>catch\<close> handler. An element of \<^verbatim>\<open>paragraphs\<close> may be
  \<^verbatim>\<open>undefined\<close> (\<open>None\<close>): the first \<^verbatim>\<open>forEach\<close> reads \<^verbatim>\<open>para.text\<close> of every element
  and throws a \<^verbatim>\<open>TypeError\<close> there, before the search starts.
\<close>

datatype js_error = TypeError | IOError

definition tryFontSize :: "region \<Rightarrow> para option list \<Rightarrow> js_error + fontplan" where
  "tryFontSize r paragraphs =
     (if None \<in> set paragraphs then Inl TypeError
      else
        let s = searchResult r (map the paragraphs)
        in Inr \<lparr>normalFontSize = bestSize s, boldFontSize = jsTimes (bestSize s) (11 / 10),
                lineSpacingRatio = 12 / 10, estimatedLines = length (bestLines s)\<rparr>)"

definition fallbackPlan :: "para option list \<Rightarrow> fontplan" where
  "fallbackPlan paragraphs =
     \<lparr>normalFontSize = Num 20, boldFontSize = Num 22, lineSpacingRatio = 12 / 10,
      estimatedLines = length paragraphs\<rparr>"

definition calculateOptimalFontSize :: "region \<Rightarrow> para option list \<Rightarrow> fontplan" where
  "calculateOptimalFontSize r paragraphs =
     (case tryFontSize r paragraphs of
        Inl e \<Rightarrow> fallbackPlan paragraphs
      | Inr plan \<Rightarrow> plan)"

section \<open>Line breaker of the text insertion\<close>

text \<open>
  The word wrap inside \<^verbatim>\<open>insertTextIntoRegions\<close>, with the string operations it
  uses. \<^verbatim>\<open>s.split(" ")\<close> always returns at least one word.
\<close>

fun splitOn :: "char \<Rightarrow> string \<Rightarrow> string list" where
  "splitOn sep [] = [[]]"
| "splitOn sep (c # cs) =
     (if c = sep then [] # splitOn sep cs
      else (case splitOn sep cs of [] \<Rightarrow> [[c]] | w # ws \<Rightarrow> (c # w) # ws))"

text \<open>
  \<^verbatim>\<open>s.indexOf(w, from)\<close>: the least index not below \<open>from\<close> (clamped to the string)
  where \<open>w\<close> occurs, or \<open>-1\<close>.
\<close>

fun findFrom :: "string \<Rightarrow> string \<Rightarrow> nat \<Rightarrow> int" where
  "findFrom w [] k = (if w = [] then int k else - 1)"
| "findFrom w (c # cs) k =
     (if take (length w) (c # cs) = w then int k else findFrom w cs (Suc k))"

definition indexOf :: "string \<Rightarrow> string \<Rightarrow> int \<Rightarrow> int" where
  "indexOf s w from =
     (let k = nat (max 0 (min from (int (length s)))) in findFrom w (drop k s) k)"

record lineColor =
  lc_text :: string
  lc_start :: int
  lc_color :: string

text \<open>
  An element of \<^verbatim>\<open>wrappedLines\<close>. A text line has no \<^verbatim>\<open>color\<close> (\<open>None\<close>) and no
  \<^verbatim>\<open>isParagraphSpace\<close> (\<open>False\<close>); the spacing line has no \<^verbatim>\<open>colorSegments\<close> (\<open>[]\<close>).
\<close>

record wrappedLine =
  line_text :: string
  line_color :: "string option"
  isNewParagraph :: bool
  isBold :: bool
  isParagraphSpace :: bool
  line_colorSegments :: "lineColor list"

record wrap_state =
  wrapLine :: string
  currentWidth :: rat
  currentLineStart :: int
  currentLineColors :: "lineColor list"
  wrappedLines :: "wrappedLine list"

definition coversWord :: "int \<Rightarrow> nat \<Rightarrow> nat \<Rightarrow> nat \<Rightarrow> bool" where
  "coversWord from len sstart slen =
     (int sstart \<le> from \<and> int (sstart + slen) \<ge> from + int len)"

definition paragraphSpace :: wrappedLine where
  "paragraphSpace =
     \<lparr>line_text = [], line_color = Some ''#000000'', isNewParagraph = True, isBold = False,
      isParagraphSpace = True, line_colorSegments = []\<rparr>"

definition textLine :: "para \<Rightarrow> wrap_state \<Rightarrow> wrappedLine" where
  "textLine p st =
     \<lparr>line_text = wrapLine st, line_color = None, isNewParagraph = False,
      isBold = list_ex (\<lambda>seg. coversWord (currentLineStart st) (length (wrapLine st))
                                 (seg_start seg) (seg_length seg)) (boldSegments p),
      isParagraphSpace = False, line_colorSegments = currentLineColors st\<rparr>"

definition flushLine :: "para \<Rightarrow> wrap_state \<Rightarrow> wrappedLine list" where
  "flushLine p st =
     (if wrapLine st \<noteq> [] then wrappedLines st @ [textLine p st] else wrappedLines st)"

text \<open>The body of \<^verbatim>\<open>words.forEach((word, wIndex) => ...)\<close>.\<close>

definition wordStep :: "rat \<Rightarrow> rat \<Rightarrow> rat \<Rightarrow> para \<Rightarrow> string \<Rightarrow> wrap_state \<Rightarrow> wrap_state" where
  "wordStep effW normalSize boldSize p word st =
     (let wordStart = indexOf (para_text p) word (currentLineStart st);
          isBoldWord = list_ex (\<lambda>seg. coversWord wordStart (length word)
                                         (seg_start seg) (seg_length seg)) (boldSegments p);
          wordColor =
            (case find (\<lambda>seg. coversWord wordStart (length word)
                                 (seg_start seg) (seg_length seg)) (colorSegments p) of
               None \<Rightarrow> ''#000000''
             | Some seg \<Rightarrow> (if seg_color seg = [] then ''#000000'' else seg_color seg));
          wordWidth = calculateTextWidth word (if isBoldWord then boldSize else normalSize);
          spaceWidth = calculateTextWidth '' '' normalSize
      in if currentWidth st + wordWidth \<le> effW
         then
           (let line1 = (if wrapLine st \<noteq> [] then wrapLine st @ '' '' else wrapLine st);
                width1 = (if wrapLine st \<noteq> [] then currentWidth st + spaceWidth
                          else currentWidth st);
                line2 = line1 @ word
            in st\<lparr>wrapLine := line2, currentWidth := width1 + wordWidth,
                   currentLineColors := currentLineColors st @
                     [\<lparr>lc_text = word, lc_start = int (length line2) - int (length word),
                       lc_color = wordColor\<rparr>]\<rparr>)
         else
           st\<lparr>wrappedLines := flushLine p st, wrapLine := word, currentWidth := wordWidth,
              currentLineStart := wordStart,
              currentLineColors := [\<lparr>lc_text = word, lc_start = 0, lc_color = wordColor\<rparr>]\<rparr>)"

text \<open>The body of \<^verbatim>\<open>paragraphs.forEach((paragraph, pIndex) => ...)\<close>.\<close>

definition wrapParagraph ::
  "rat \<Rightarrow> rat \<Rightarrow> rat \<Rightarrow> nat \<times> para \<Rightarrow> wrappedLine list \<Rightarrow> wrappedLine list" where
  "wrapParagraph effW normalSize boldSize ip ls =
     (let p = snd ip;
          ls1 = (if fst ip > 0 then ls @ [paragraphSpace] else ls);
          ws = splitOn CHR '' '' (para_text p);
          st = fold (wordStep effW normalSize boldSize p) ws
                 \<lparr>wrapLine = [], currentWidth = 0,
                  currentLineStart = indexOf (para_text p) (hd ws) 0,
                  currentLineColors = [], wrappedLines = ls1\<rparr>
      in flushLine p st)"

definition wrapAll :: "rat \<Rightarrow> rat \<Rightarrow> rat \<Rightarrow> para list \<Rightarrow> wrappedLine list" where
  "wrapAll effW normalSize boldSize ps =
     fold (wrapParagraph effW normalSize boldSize) (enumerate 0 ps) []"

text \<open>
  The estimated width of a line of words: the word widths plus one space width between
  two words.
\<close>

definition lineWidthOf :: "rat \<Rightarrow> string list \<Rightarrow> rat" where
  "lineWidthOf fontSize ws =
     sum_list (map (\<lambda>w. calculateTextWidth w fontSize) ws)
       + of_nat (length ws - 1) * calculateTextWidth '' '' fontSize"

section \<open>Line breaker \<^verbatim>\<open>wrapText\<close>\<close>

text \<open>
  \<^verbatim>\<open>wrapText(text, maxWidth, fontSize, x, y, colorSegments, boldSegments)\<close>, the second
  word wrap of the source; no function calls it. \<^verbatim>\<open>text.split(/\s+/)\<close> is modelled for
  the white-space characters of ASCII. The preallocated array \<^verbatim>\<open>lines\<close> with its index
  \<^verbatim>\<open>lineIndex\<close> is a list that grows at its end. \<open>lineFits\<close> says that a line is within
  the width or holds a single word.
\<close>

definition isSpaceChar :: "char \<Rightarrow> bool" where
  "isSpaceChar c \<longleftrightarrow> c \<in> {CHR '' '', CHR 0x09, CHR 0x0A, CHR 0x0B, CHR 0x0C, CHR 0x0D}"

function splitSpaces :: "string \<Rightarrow> string list" where
  "splitSpaces [] = [[]]"
| "splitSpaces (c # cs) =
     (if isSpaceChar c then [] # splitSpaces (dropWhile isSpaceChar cs)
      else (case splitSpaces cs of [] \<Rightarrow> [[c]] | w # ws \<Rightarrow> (c # w) # ws))"
  by pat_completeness auto
termination
  by (relation "measure length") (auto simp: length_dropWhile_le less_Suc_eq_le)

record textSegment =
  st_text :: string
  st_width :: rat
  st_color :: string
  st_isBold :: bool

record wrapTextLine =
  wl_x :: rat
  wl_y :: rat
  segments :: "textSegment list"
  wl_width :: rat
  lineHeight :: rat

record format =
  fmt_color :: string
  fmt_isBold :: bool

definition getFormatProperties :: "int \<Rightarrow> colorSegment list \<Rightarrow> segment list \<Rightarrow> format" where
  "getFormatProperties pos colSegs boldSegs =
     \<lparr>fmt_color =
        (case find (\<lambda>seg. pos \<ge> int (seg_start seg) \<and> pos < int (seg_start seg + seg_length seg))
                colSegs of
           None \<Rightarrow> ''#000000'' | Some seg \<Rightarrow> seg_color seg),
      fmt_isBold =
        (find (\<lambda>seg. pos \<ge> int (seg_start seg) \<and> pos < int (seg_start seg + seg_length seg))
           boldSegs \<noteq> None)\<rparr>"

record wrapText_state =
  wt_lines :: "wrapTextLine list"
  wt_currentLine :: wrapTextLine
  textPosition :: int

definition wrapTextStep ::
  "string \<Rightarrow> rat \<Rightarrow> rat \<Rightarrow> rat \<Rightarrow> rat \<Rightarrow> colorSegment list \<Rightarrow> segment list
     \<Rightarrow> nat \<times> string \<Rightarrow> wrapText_state \<Rightarrow> wrapText_state" where
  "wrapTextStep str maxWidth fontSize x0 y0 colSegs boldSegs iw st =
     (let word = snd iw;
          wordStart = indexOf str word (textPosition st);
          fmt = getFormatProperties wordStart colSegs boldSegs;
          wordWidth = calculateTextWidth word
                        (if fmt_isBold fmt then fontSize * (11 / 10) else fontSize);
          spaceWidth = (if fst iw > 0 then calculateTextWidth '' '' fontSize else 0);
          cur = wt_currentLine st;
          seg = \<lparr>st_text = word, st_width = wordWidth, st_color = fmt_color fmt,
                 st_isBold = fmt_isBold fmt\<rparr>
      in (if wl_width cur + wordWidth + spaceWidth > maxWidth \<and> length (segments cur) > 0
          then st\<lparr>wt_lines := wt_lines st @ [cur],
                  wt_currentLine :=
                    \<lparr>wl_x = x0,
                     wl_y = y0 + of_nat (length (wt_lines st) + 1) * fontSize * (13 / 10),
                     segments = [seg], wl_width = wordWidth,
                     lineHeight = fontSize * (13 / 10)\<rparr>,
                  textPosition := wordStart + int (length word)\<rparr>
          else st\<lparr>wt_currentLine :=
                    cur\<lparr>segments := segments cur @ [seg],
                        wl_width := (if length (segments cur) > 0 then wl_width cur + spaceWidth
                                     else wl_width cur) + wordWidth\<rparr>,
                  textPosition := wordStart + int (length word)\<rparr>))"

definition wrapText ::
  "string \<Rightarrow> rat \<Rightarrow> rat \<Rightarrow> rat \<Rightarrow> rat \<Rightarrow> colorSegment list \<Rightarrow> segment list
     \<Rightarrow> wrapTextLine list" where
  "wrapText str maxWidth fontSize x0 y0 colSegs boldSegs =
     (if str = [] then []
      else
        let st = fold (wrapTextStep str maxWidth fontSize x0 y0 colSegs boldSegs)
                   (enumerate 0 (splitSpaces str))
                   \<lparr>wt_lines = [],
                    wt_currentLine = \<lparr>wl_x = x0, wl_y = y0, segments = [], wl_width = 0,
                                      lineHeight = fontSize * (13 / 10)\<rparr>,
                    textPosition = 0\<rparr>
        in if length (segments (wt_currentLine st)) > 0
           then wt_lines st @ [wt_currentLine st] else wt_lines st)"

definition lineFits :: "rat \<Rightarrow> wrapTextLine \<Rightarrow> bool" where
  "lineFits maxWidth l \<longleftrightarrow> wl_width l \<le> maxWidth \<or> length (segments l) \<le> 1"

section \<open>Image cache\<close>

text \<open>
  The \<^verbatim>\<open>Map\<close> in insertion order, with the running byte count. The file system is a
  partial map from paths to contents; a missing file makes \<^verbatim>\<open>readFileSync\<close> throw,
  which \<^verbatim>\<open>readImageFile\<close> logs and rethrows. A loop that does not return is \<open>None\<close>.
\<close>

record cache_state =
  imageCache :: "(string \<times> byte list) list"
  currentCacheSize :: int

definition MAX_CACHE_SIZE :: int where
  "MAX_CACHE_SIZE = 100 * 1024 * 1024"

definition clearOldestCache :: "cache_state \<Rightarrow> cache_state" where
  "clearOldestCache s =
     (case imageCache s of
        [] \<Rightarrow> s
      | (oldestKey, oldest) # rest \<Rightarrow>
          \<lparr>imageCache = filter (\<lambda>e. fst e \<noteq> oldestKey) (imageCache s),
           currentCacheSize = currentCacheSize s - int (length oldest)\<rparr>)"

partial_function (option) evictLoop :: "nat \<Rightarrow> cache_state \<Rightarrow> cache_state option" where
  "evictLoop bufferLength s =
     (if currentCacheSize s + int bufferLength > MAX_CACHE_SIZE
      then evictLoop bufferLength (clearOldestCache s)
      else Some s)"

definition readImageFile ::
  "(string \<rightharpoonup> byte list) \<Rightarrow> string \<Rightarrow> cache_state
     \<Rightarrow> (js_error + byte list \<times> cache_state) option" where
  "readImageFile files imagePath s =
     (case map_of (imageCache s) imagePath of
        Some cached \<Rightarrow> Some (Inr (cached, s))
      | None \<Rightarrow>
          (case files imagePath of
             None \<Rightarrow> Some (Inl IOError)
           | Some imageBuffer \<Rightarrow>
               (case evictLoop (length imageBuffer) s of
                  None \<Rightarrow> None
                | Some s' \<Rightarrow>
                    Some (Inr (imageBuffer,
                      \<lparr>imageCache = imageCache s' @ [(imagePath, imageBuffer)],
                       currentCacheSize = currentCacheSize s' + int (length imageBuffer)\<rparr>)))))"

section \<open>Compositor: text elements of the vector markup\<close>

text \<open>
  \<^verbatim>\<open>s.replace(/c/g, rep)\<close> for a single character \<open>c\<close>, and the chain of five
  replacements that both branches of \<^verbatim>\<open>drawRegionsWithText\<close> apply to a text.
\<close>

definition replaceAll :: "char \<Rightarrow> string \<Rightarrow> string \<Rightarrow> string" where
  "replaceAll c rep s = concat (map (\<lambda>d. if d = c then rep else [d]) s)"

definition escapeXml :: "string \<Rightarrow> string" where
  "escapeXml t =
     replaceAll (CHR 0x27) ''&apos;''
       (replaceAll (CHR 0x22) ''&quot;''
          (replaceAll CHR ''>'' ''&gt;''
             (replaceAll CHR ''<'' ''&lt;''
                (replaceAll CHR ''&'' ''&amp;'' t))))"

text \<open>
  A text object as \<^verbatim>\<open>insertTextIntoRegions\<close> builds it. The conversion of a number to
  its decimal string is a parameter \<open>showNum\<close>. In the templates a run of white space is
  written as one space, and \<open>dq\<close> is the double quote.
\<close>

record textObject =
  obj_text :: string
  obj_x :: rat
  obj_y :: rat
  obj_fontSize :: rat
  textAnchor :: string
  dominantBaseline :: string
  fontWeight :: string
  fontFamily :: string
  style :: string
  obj_colorSegments :: "lineColor list"

definition scaleTextObject :: "rat \<Rightarrow> textObject \<Rightarrow> textObject" where
  "scaleTextObject upscaleFactor obj =
     obj\<lparr>obj_x := obj_x obj * upscaleFactor, obj_y := obj_y obj * upscaleFactor,
         obj_fontSize := obj_fontSize obj * upscaleFactor\<rparr>"

definition dq :: string where
  "dq = [CHR 0x22]"

definition attr :: "string \<Rightarrow> string \<Rightarrow> string" where
  "attr name v = '' '' @ name @ ''='' @ dq @ v @ dq"

definition commonAttrs :: "(rat \<Rightarrow> string) \<Rightarrow> textObject \<Rightarrow> string" where
  "commonAttrs showNum obj =
     attr ''font-size'' (showNum (obj_fontSize obj) @ ''px'')
     @ attr ''text-anchor'' (textAnchor obj)
     @ attr ''dominant-baseline'' (dominantBaseline obj)
     @ attr ''font-weight'' (fontWeight obj)
     @ attr ''font-family'' (fontFamily obj)
     @ attr ''style'' (style obj)
     @ attr ''shape-rendering'' ''geometricPrecision''
     @ attr ''text-rendering'' ''geometricPrecision''"

definition tspanOpen :: "(rat \<Rightarrow> string) \<Rightarrow> textObject \<Rightarrow> nat \<Rightarrow> lineColor \<Rightarrow> string" where
  "tspanOpen showNum obj index seg =
     ''<tspan'' @ attr ''fill'' (lc_color seg)
     @ '' '' @ (if index > 0
                then ''dx='' @ dq @ showNum (calculateTextWidth '' '' (obj_fontSize obj)) @ dq
                else [])
     @ attr ''shape-rendering'' ''geometricPrecision''
     @ attr ''text-rendering'' ''geometricPrecision'' @ '' >''"

definition tspan :: "(rat \<Rightarrow> string) \<Rightarrow> textObject \<Rightarrow> nat \<times> lineColor \<Rightarrow> string" where
  "tspan showNum obj iseg =
     tspanOpen showNum obj (fst iseg) (snd iseg) @ escapeXml (lc_text (snd iseg)) @ ''</tspan>''"

definition segmentsOpen :: "(rat \<Rightarrow> string) \<Rightarrow> textObject \<Rightarrow> string" where
  "segmentsOpen showNum obj =
     '' <text'' @ attr ''x'' (showNum (obj_x obj)) @ attr ''y'' (showNum (obj_y obj))
     @ commonAttrs showNum obj @ '' > ''"

definition plainOpen :: "(rat \<Rightarrow> string) \<Rightarrow> textObject \<Rightarrow> string" where
  "plainOpen showNum obj =
     '' <text'' @ attr ''x'' (showNum (obj_x obj)) @ attr ''y'' (showNum (obj_y obj))
     @ attr ''fill'' ''#000000'' @ commonAttrs showNum obj @ '' >''"

text \<open>The body of \<^verbatim>\<open>scaledTextObjects.forEach((obj) => ...)\<close>: one markup element.\<close>

definition textElement :: "(rat \<Rightarrow> string) \<Rightarrow> textObject \<Rightarrow> string" where
  "textElement showNum obj =
     (if length (obj_colorSegments obj) > 0
      then segmentsOpen showNum obj
           @ concat (map (tspan showNum obj) (enumerate 0 (obj_colorSegments obj)))
           @ '' </text>''
      else plainOpen showNum obj @ escapeXml (obj_text obj) @ ''</text> '')"

definition svgElements :: "(rat \<Rightarrow> string) \<Rightarrow> rat \<Rightarrow> textObject list \<Rightarrow> string list" where
  "svgElements showNum upscaleFactor textObjects =
     map (textElement showNum) (map (scaleTextObject upscaleFactor) textObjects)"




definition metaChars :: "char set" where
  "metaChars = {CHR ''&'', CHR ''<'', CHR ''>'', CHR 0x22, CHR 0x27}"

section \<open>Predicates used in the statements\<close>

text \<open>
  A raster that is white except for one dark band: \<open>a\<close> rows of pixels of intensity at
  least 200, then \<open>h\<close> rows of pixels below 200, then \<open>b\<close> rows of at least 200 again,
  every row over the full width.
\<close>

definition darkBand :: "raster \<Rightarrow> nat \<Rightarrow> nat \<Rightarrow> nat \<Rightarrow> bool" where
  "darkBand img a h b \<longleftrightarrow>
     info_height img = a + h + b
     \<and> length (data img) = info_width img * info_height img
     \<and> (\<forall>py < a + h + b. \<forall>px < info_width img.
           (data img ! (py * info_width img + px) < 200) = (a \<le> py \<and> py < a + h))"

text \<open>The region of \<open>n\<close> empty grid rows that start at grid row \<open>first\<close>.\<close>

definition bandRun :: "nat \<Rightarrow> nat \<Rightarrow> nat \<Rightarrow> region" where
  "bandRun w first n =
     \<lparr>xpos = 0, ypos = int (first * cellSize), width = int w, height = int (n * cellSize)\<rparr>"

text \<open>
  The invariant of the binary search: the bounds stay inside \<open>[14, 72]\<close>, the counter
  stays below its limit, and the best size is the initial estimate until a trial fits
  and a trial size from then on.
\<close>

definition searchInv :: "region \<Rightarrow> para list \<Rightarrow> search_state \<Rightarrow> bool" where
  "searchInv r ps s \<longleftrightarrow>
     14 \<le> minSize s \<and> maxSize s \<le> 72 \<and> iterations s \<le> maxIterations
     \<and> (if bestLines s = [] then bestSize s = initialSize r ps
         else \<exists>k. bestSize s = Num (of_int k) \<and> 14 \<le> k \<and> k \<le> 72)"

declare searchLoop.simps [simp del]

section \<open>Properties of the glyph width estimator\<close>





section \<open>Properties of the image cache\<close>

text \<open>
  With an empty cache \<^verbatim>\<open>clearOldestCache\<close> changes nothing, so a loop that starts
  there with a buffer over the budget never returns.
\<close>

lemma evictLoop_stuck:
  assumes ret: "evictLoop n s = Some t"
  shows "\<not> (imageCache s = [] \<and> currentCacheSize s + int n > MAX_CACHE_SIZE)"
proof (rule evictLoop.raw_induct
    [where P = "\<lambda>n s t. \<not> (imageCache s = [] \<and> currentCacheSize s + int n > MAX_CACHE_SIZE)",
     OF _ ret])
  fix f :: "nat \<Rightarrow> cache_state \<Rightarrow> cache_state option" and k u v
  assume IH: "\<And>k u v. f k u = Some v \<Longrightarrow>
                \<not> (imageCache u = [] \<and> currentCacheSize u + int k > MAX_CACHE_SIZE)"
    and body: "(if MAX_CACHE_SIZE < currentCacheSize u + int k
                then f k (clearOldestCache u) else Some u) = Some v"
  show "\<not> (imageCache u = [] \<and> currentCacheSize u + int k > MAX_CACHE_SIZE)"
  proof
    assume stuck: "imageCache u = [] \<and> currentCacheSize u + int k > MAX_CACHE_SIZE"
    then have "clearOldestCache u = u"
      by (simp add: clearOldestCache_def)
    with stuck body have "f k u = Some v"
      by simp
    from IH [OF this] stuck show False
      by simp
  qed
qed

text \<open>
  The loop does return when the buffer is within the budget, the byte count is the sum
  of the cached buffers and the keys are distinct.
\<close>

lemma evictLoop_returns:
  assumes "int n \<le> MAX_CACHE_SIZE"
    and "currentCacheSize s = (\<Sum>e \<leftarrow> imageCache s. int (length (snd e)))"
    and "distinct (map fst (imageCache s))"
  shows "\<exists>t. evictLoop n s = Some t"
  using assms(2,3)
proof (induction "length (imageCache s)" arbitrary: s)
  case 0
  then have "currentCacheSize s = 0" by simp
  with assms(1) have "evictLoop n s = Some s"
    by (subst evictLoop.simps) simp
  then show ?case by blast
next
  case (Suc m)
  show ?case
  proof (cases "currentCacheSize s + int n > MAX_CACHE_SIZE")
    case False
    then have "evictLoop n s = Some s"
      by (subst evictLoop.simps) simp
    then show ?thesis by blast
  next
    case True
    from Suc.hyps(2) obtain k b rest where c: "imageCache s = (k, b) # rest"
      by (cases "imageCache s") auto
    with Suc.prems(2) have keep: "filter (\<lambda>e. fst e \<noteq> k) rest = rest"
      by (auto simp: filter_id_conv)
    let ?s' = "clearOldestCache s"
    have s': "imageCache ?s' = rest" "currentCacheSize ?s' = currentCacheSize s - int (length b)"
      using c keep by (simp_all add: clearOldestCache_def)
    have "m = length (imageCache ?s')"
      using Suc.hyps(2) c s' by simp
    moreover have "currentCacheSize ?s' = (\<Sum>e \<leftarrow> imageCache ?s'. int (length (snd e)))"
      using Suc.prems(1) c s' by simp
    moreover have "distinct (map fst (imageCache ?s'))"
      using Suc.prems(2) c s' by simp
    ultimately have "\<exists>t. evictLoop n ?s' = Some t"
      by (rule Suc.hyps(1))
    moreover have "evictLoop n s = evictLoop n ?s'"
      using True by (subst evictLoop.simps) simp
    ultimately show ?thesis by simp
  qed
qed

text \<open>
  Claim C3 says that \<^verbatim>\<open>readImageFile\<close> terminates for every image file, also for one
  larger than \<^verbatim>\<open>MAX_CACHE_SIZE\<close> read into an empty cache. The code does not: for a
  file of 104857601 bytes and the empty cache the eviction loop never exits.
\<close>

theorem readImageFile_oversized_never_returns:
  "readImageFile [''big.png'' \<mapsto> replicate 104857601 0] ''big.png''
     \<lparr>imageCache = [], currentCacheSize = 0\<rparr> = None"
proof -
  have "evictLoop 104857601 \<lparr>imageCache = [], currentCacheSize = 0\<rparr> = None"
  proof (cases "evictLoop 104857601 \<lparr>imageCache = [], currentCacheSize = 0\<rparr>")
    case (Some t)
    from evictLoop_stuck [OF this] show ?thesis by (simp add: MAX_CACHE_SIZE_def)
  qed simp
  then show ?thesis by (simp add: readImageFile_def)
qed

section \<open>Properties of the font-size solver\<close>



text \<open>The binary search keeps its invariant.\<close>

lemma searchInv_start: "searchInv r ps (searchStart r ps)"
  by (simp add: searchInv_def searchStart_def maxIterations_def)

lemma searchStep_inv:
  assumes inv: "searchInv r ps s" and le: "minSize s \<le> maxSize s"
    and it: "iterations s < maxIterations"
  shows "searchInv r ps (searchStep effW effH ps s)"
proof -
  let ?f = "(minSize s + maxSize s) div 2"
  let ?ts = "runTrial (of_int ?f) effW effH ps"
  have lo: "14 \<le> minSize s" and hi: "maxSize s \<le> 72"
    using inv by (simp_all add: searchInv_def)
  have range: "14 \<le> ?f" "?f \<le> 72"
    using lo hi le by linarith+
  show ?thesis
  proof (cases "trialFits effH ?ts")
    case True
    then have lines: "testLines ?ts \<noteq> []"
      by (simp add: trialFits_def)
    have step: "searchStep effW effH ps s =
                  s\<lparr>bestSize := Num (of_int ?f), bestLines := testLines ?ts,
                     minSize := ?f + 1, iterations := iterations s + 1\<rparr>"
      using True by (simp add: searchStep_def Let_def)
    have "\<exists>k. Num (of_int ?f) = Num (of_int k) \<and> 14 \<le> k \<and> k \<le> 72"
      using range by blast
    then show ?thesis
      unfolding step searchInv_def using range hi it lines by simp
  next
    case False
    have step: "searchStep effW effH ps s =
                  s\<lparr>maxSize := ?f - 1, iterations := iterations s + 1\<rparr>"
      using False by (simp add: searchStep_def Let_def)
    show ?thesis
      unfolding step using inv range it by (simp add: searchInv_def)
  qed
qed

lemma searchLoop_inv:
  "searchInv r ps s \<Longrightarrow> searchInv r ps (searchLoop effW effH ps s)"
proof (induction effW effH ps s rule: searchLoop.induct)
  case (1 effW effH ps s)
  show ?case
  proof (cases "minSize s \<le> maxSize s \<and> iterations s < maxIterations")
    case True
    then have "searchInv r ps (searchStep effW effH ps s)"
      using "1.prems" by (simp add: searchStep_inv)
    then have "searchInv r ps (searchLoop effW effH ps (searchStep effW effH ps s))"
      using True by (rule "1.IH" [rotated])
    moreover have "searchLoop effW effH ps s = searchLoop effW effH ps (searchStep effW effH ps s)"
      using True by (subst searchLoop.simps) simp
    ultimately show ?thesis by simp
  next
    case False
    then have "searchLoop effW effH ps s = s"
      by (subst searchLoop.simps) auto
    with "1.prems" show ?thesis by simp
  qed
qed

lemma searchResult_inv: "searchInv r ps (searchResult r ps)"
  unfolding searchResult_def by (rule searchLoop_inv) (rule searchInv_start)

lemma tryFontSize_defined:
  "tryFontSize r (map Some ps) =
     Inr \<lparr>normalFontSize = bestSize (searchResult r ps),
          boldFontSize = jsTimes (bestSize (searchResult r ps)) (11 / 10),
          lineSpacingRatio = 12 / 10,
          estimatedLines = length (bestLines (searchResult r ps))\<rparr>"
proof -
  have "None \<notin> set (map Some ps)" by auto
  moreover have "map the (map Some ps) = ps" by (simp add: comp_def)
  ultimately show ?thesis
    by (simp add: tryFontSize_def Let_def)
qed

text \<open>
  Claim C2, as the code has it. For a list of defined paragraphs the computation does not
  throw and the loop runs at most 10 trials. When some trial fits (the plan then has at
  least one estimated line) the normal font size is an integer in \<open>[14, 72]\<close>. When no
  trial fits, it is the initial estimate, which need not lie in \<open>[14, 72]\<close>.
\<close>

theorem solver_bounded:
  "tryFontSize r (map Some ps) = Inr (calculateOptimalFontSize r (map Some ps))
   \<and> iterations (searchResult r ps) \<le> 10
   \<and> (0 < estimatedLines (calculateOptimalFontSize r (map Some ps)) \<longrightarrow>
        (\<exists>k. normalFontSize (calculateOptimalFontSize r (map Some ps)) = Num (of_int k)
             \<and> 14 \<le> k \<and> k \<le> 72))
   \<and> (estimatedLines (calculateOptimalFontSize r (map Some ps)) = 0 \<longrightarrow>
        normalFontSize (calculateOptimalFontSize r (map Some ps)) = initialSize r ps)"
proof -
  let ?s = "searchResult r ps"
  let ?plan = "calculateOptimalFontSize r (map Some ps)"
  have inv: "searchInv r ps ?s"
    by (rule searchResult_inv)
  have ret: "tryFontSize r (map Some ps) = Inr ?plan"
    by (simp add: calculateOptimalFontSize_def tryFontSize_defined)
  have size: "normalFontSize ?plan = bestSize ?s"
    and lines: "estimatedLines ?plan = length (bestLines ?s)"
    by (simp_all add: calculateOptimalFontSize_def tryFontSize_defined)
  have iter: "iterations ?s \<le> 10"
    using inv by (simp add: searchInv_def maxIterations_def)
  have fit: "\<exists>k. bestSize ?s = Num (of_int k) \<and> 14 \<le> k \<and> k \<le> 72" if "bestLines ?s \<noteq> []"
    using inv that by (simp add: searchInv_def)
  have nofit: "bestSize ?s = initialSize r ps" if "bestLines ?s = []"
    using inv that by (simp add: searchInv_def)
  show ?thesis
    unfolding size lines using ret iter fit nofit by simp
qed

text \<open>
  Claim C2 as stated fails: for a region of 100 by 30 pixels and one paragraph of twelve
  letters no trial size fits, and the size returned is the initial estimate 4.
\<close>

theorem solver_out_of_range:
  "normalFontSize (calculateOptimalFontSize \<lparr>xpos = 0, ypos = 0, width = 100, height = 30\<rparr>
      [Some \<lparr>para_text = ''aaaaaaaaaaaa'', colorSegments = [], boldSegments = []\<rparr>]) = Num 4
   \<and> \<not> (14::rat) \<le> 4"
  by code_simp

text \<open>The two cases of the theorem on concrete inputs.\<close>

theorem solver_bounded_witness:
  "estimatedLines (calculateOptimalFontSize \<lparr>xpos = 0, ypos = 0, width = 140, height = 110\<rparr>
      (map Some [\<lparr>para_text = ''aaaa a'', colorSegments = [], boldSegments = []\<rparr>])) = 2
   \<and> (\<exists>k. normalFontSize
          (calculateOptimalFontSize \<lparr>xpos = 0, ypos = 0, width = 140, height = 110\<rparr>
            (map Some [\<lparr>para_text = ''aaaa a'', colorSegments = [], boldSegments = []\<rparr>]))
          = Num (of_int k) \<and> 14 \<le> k \<and> k \<le> 72)
   \<and> estimatedLines (calculateOptimalFontSize \<lparr>xpos = 0, ypos = 0, width = 100, height = 30\<rparr>
      (map Some [\<lparr>para_text = ''aaaaaaaaaaaa'', colorSegments = [], boldSegments = []\<rparr>])) = 0
   \<and> normalFontSize (calculateOptimalFontSize \<lparr>xpos = 0, ypos = 0, width = 100, height = 30\<rparr>
      (map Some [\<lparr>para_text = ''aaaaaaaaaaaa'', colorSegments = [], boldSegments = []\<rparr>]))
     = initialSize \<lparr>xpos = 0, ypos = 0, width = 100, height = 30\<rparr>
         [\<lparr>para_text = ''aaaaaaaaaaaa'', colorSegments = [], boldSegments = []\<rparr>]"
proof -
  let ?r1 = "\<lparr>xpos = 0, ypos = 0, width = 140, height = 110\<rparr>"
  let ?ps1 = "[\<lparr>para_text = ''aaaa a'', colorSegments = [], boldSegments = []\<rparr>]"
  let ?r2 = "\<lparr>xpos = 0, ypos = 0, width = 100, height = 30\<rparr>"
  let ?ps2 = "[\<lparr>para_text = ''aaaaaaaaaaaa'', colorSegments = [], boldSegments = []\<rparr>]"
  have fit: "estimatedLines (calculateOptimalFontSize ?r1 (map Some ?ps1)) = 2"
    by code_simp
  have nofit: "estimatedLines (calculateOptimalFontSize ?r2 (map Some ?ps2)) = 0"
    by code_simp
  from solver_bounded [of ?r1 ?ps1] fit
  have size1: "\<exists>k. normalFontSize (calculateOptimalFontSize ?r1 (map Some ?ps1)) = Num (of_int k)
                 \<and> 14 \<le> k \<and> k \<le> 72"
    by simp
  from solver_bounded [of ?r2 ?ps2] nofit
  have size2: "normalFontSize (calculateOptimalFontSize ?r2 (map Some ?ps2)) = initialSize ?r2 ?ps2"
    by simp
  from fit size1 nofit size2 show ?thesis
    by blast
qed

section \<open>Properties of the empty-region finder\<close>

lemma cell_index_in_grid:
  fixes gy gx gw gh :: nat
  assumes "gy < gh" "gx < gw"
  shows "gy * gw + gx < gw * gh"
proof -
  have "gy * gw + gx < gy * gw + gw" using assms by simp
  also have "\<dots> = Suc gy * gw" by simp
  also have "\<dots> \<le> gh * gw" using assms by (intro mult_le_mono1) simp
  finally show ?thesis by (simp add: mult.commute)
qed

lemma markCells_white:
  assumes "\<forall>p \<in> set (data img). p \<ge> 200"
  shows "markCells img
           = replicate (ceilCells (info_width img) * ceilCells (info_height img)) 0"
proof -
  have dark: "\<not> pixelDark (data img) i" for i
  proof
    assume "pixelDark (data img) i"
    then have "i < length (data img)" and lt: "data img ! i < 200"
      by (simp_all add: pixelDark_def)
    then have "data img ! i \<in> set (data img)"
      by simp
    with assms have "200 \<le> data img ! i"
      by blast
    with lt show False
      by simp
  qed
  have inner: "fold (markPixel img py) pxs = id" for py pxs
    by (rule fold_id) (auto simp: markPixel_def dark)
  have "fold (\<lambda>py grid. fold (markPixel img py) [0..<info_width img] grid) pys = id" for pys
    by (rule fold_id) (simp add: inner fun_eq_iff)
  then show ?thesis
    by (simp add: markCells_def)
qed

lemma isRowEmpty_zero_grid:
  assumes "gy < gh"
  shows "isRowEmpty (replicate (gw * gh) 0) gw gy"
  using assms by (simp add: isRowEmpty_def list_all_iff cell_index_in_grid)

lemma scan_empty_rows:
  assumes "\<forall>gy \<in> {i..<j}. isRowEmpty grid gw gy" "i \<le> j"
  shows "fold (scanRow grid gw w mh) [i..<j] st
           = st\<lparr>startY := (if currentEmptyHeight st = 0 \<and> i < j then i else startY st),
                 currentEmptyHeight := currentEmptyHeight st + (j - i)\<rparr>"
  using assms
proof (induction j)
  case 0
  then show ?case by simp
next
  case (Suc j)
  show ?case
  proof (cases "i = Suc j")
    case True
    then show ?thesis by simp
  next
    case False
    with Suc.prems have le: "i \<le> j" by simp
    from Suc.prems have row: "isRowEmpty grid gw j" using le by simp
    from Suc.prems have "\<forall>gy \<in> {i..<j}. isRowEmpty grid gw gy" by simp
    from Suc.IH [OF this le] row le show ?thesis
      by (simp add: scanRow_def Suc_diff_le)
  qed
qed

lemma ceilMinHeight_le:
  assumes "mh \<le> int n"
  shows "ceilMinHeight mh \<le> int (ceilCells n)"
proof -
  have "ceilMinHeight mh \<le> ceilMinHeight (int n)"
    using assms by (simp add: ceilMinHeight_def cellSize_def zdiv_mono1)
  also have "ceilMinHeight (int n) = int (ceilCells n)"
    by (simp add: ceilMinHeight_def ceilCells_def cellSize_def)
  finally show ?thesis .
qed

lemma ceilCells_bounds: "n \<le> ceilCells n * cellSize \<and> ceilCells n * cellSize < n + cellSize"
  by (simp add: ceilCells_def cellSize_def) presburger

lemma mergeRegions_single: "mergeRegions [r] = [r]"
  by (simp add: mergeRegions_def)

lemma findEmptyRegions_all_white:
  assumes white: "\<forall>p \<in> set (data img). p \<ge> 200"
    and tall: "minHeight \<le> int (info_height img)"
  shows "findEmptyRegions img minWidth minHeight =
           [\<lparr>xpos = 0, ypos = 0, width = int (info_width img),
             height = int (ceilCells (info_height img) * cellSize),
             rtype = ''rectangle'', color = ''blue'', strokeWidth = 1,
             area = int (info_width img) * int (ceilCells (info_height img) * cellSize)\<rparr>]"
proof -
  let ?gw = "ceilCells (info_width img)" and ?gh = "ceilCells (info_height img)"
  let ?init = "\<lparr>currentEmptyHeight = 0, startY = 0, regions = []\<rparr>"
  have rows: "\<forall>gy \<in> {0..<?gh}. isRowEmpty (markCells img) ?gw gy"
    by (simp add: markCells_white [OF white] isRowEmpty_zero_grid)
  have "fold (scanRow (markCells img) ?gw (info_width img) minHeight) [0..<?gh] ?init
          = \<lparr>currentEmptyHeight = ?gh, startY = 0, regions = []\<rparr>"
    using scan_empty_rows [OF rows, of "info_width img" minHeight ?init] by simp
  then have "scanRows (markCells img) ?gw ?gh (info_width img) minHeight
          = [\<lparr>xpos = 0, ypos = 0, width = int (info_width img), height = int (?gh * cellSize)\<rparr>]"
    using ceilMinHeight_le [OF tall] by (simp add: scanRows_def pushIfTall_def emptyRun_def)
  moreover have "minHeight \<le> int (?gh * cellSize)"
    using tall ceilCells_bounds [of "info_height img"] by linarith
  ultimately show ?thesis
    by (simp add: findEmptyRegions_def Let_def mergeRegions_single toRectangle_def)
qed

lemma markPixel_length: "length (markPixel img py px g) = length g"
  by (simp add: markPixel_def)

lemma fold_markPixel_length: "length (fold (markPixel img py) pxs g) = length g"
  by (induction pxs arbitrary: g) (simp_all add: markPixel_length)

lemma fold_markPixel_nth:
  assumes "j < length g"
  shows "fold (markPixel img py) pxs g ! j =
           (if \<exists>px \<in> set pxs. pixelDark (data img) (py * info_width img + px)
                 \<and> (py div cellSize) * ceilCells (info_width img) + px div cellSize = j
            then 1 else g ! j)"
  using assms
proof (induction pxs arbitrary: g)
  case Nil
  then show ?case by simp
next
  case (Cons px pxs)
  have len: "j < length (markPixel img py px g)"
    using Cons.prems by (simp add: markPixel_length)
  show ?case
    using Cons.IH [OF len] Cons.prems
    by (auto simp: markPixel_def nth_list_update)
qed

lemma fold_rows_length:
  "length (fold (\<lambda>py grid. fold (markPixel img py) pxs grid) pys g) = length g"
  by (induction pys arbitrary: g) (simp_all add: fold_markPixel_length)

lemma fold_rows_nth:
  assumes "j < length g"
  shows "fold (\<lambda>py grid. fold (markPixel img py) pxs grid) pys g ! j =
           (if \<exists>py \<in> set pys. \<exists>px \<in> set pxs. pixelDark (data img) (py * info_width img + px)
                 \<and> (py div cellSize) * ceilCells (info_width img) + px div cellSize = j
            then 1 else g ! j)"
  using assms
proof (induction pys arbitrary: g)
  case Nil
  then show ?case by simp
next
  case (Cons py pys)
  have len: "j < length (fold (markPixel img py) pxs g)"
    using Cons.prems by (simp add: fold_markPixel_length)
  show ?case
    using Cons.IH [OF len] fold_markPixel_nth [OF Cons.prems, of img py pxs]
    by auto
qed

lemma markCells_nth:
  assumes "j < ceilCells (info_width img) * ceilCells (info_height img)"
  shows "(markCells img ! j = 1) =
           (\<exists>py < info_height img. \<exists>px < info_width img.
              pixelDark (data img) (py * info_width img + px)
              \<and> (py div cellSize) * ceilCells (info_width img) + px div cellSize = j)"
proof -
  have "(0::byte) \<noteq> 1" by simp
  then show ?thesis
    unfolding markCells_def using assms
    by (subst fold_rows_nth) (auto simp: Bex_def)
qed

lemma cell_decompose:
  fixes gw :: nat
  assumes "p * gw + q = r * gw + s" "q < gw" "s < gw"
  shows "p = r \<and> q = s"
proof -
  have "(p * gw + q) div gw = p" "(r * gw + s) div gw = r"
    using assms(2,3) by simp_all
  with assms(1) have "p = r" by metis
  with assms(1) show ?thesis by simp
qed

lemma px_cell_in_grid: "px < w \<Longrightarrow> px div cellSize < ceilCells w"
  by (simp add: ceilCells_def cellSize_def)

lemma py_cell_in_grid: "py < h \<Longrightarrow> py div cellSize < ceilCells h"
  by (rule px_cell_in_grid)

lemma isRowEmpty_markCells:
  assumes "gy < ceilCells (info_height img)"
  shows "isRowEmpty (markCells img) (ceilCells (info_width img)) gy =
           (\<not> (\<exists>py < info_height img. \<exists>px < info_width img.
                 pixelDark (data img) (py * info_width img + px) \<and> py div cellSize = gy))"
proof -
  let ?gw = "ceilCells (info_width img)"
  have cell: "(markCells img ! (gy * ?gw + gx) = 1) =
           (\<exists>py < info_height img. \<exists>px < info_width img.
              pixelDark (data img) (py * info_width img + px)
              \<and> py div cellSize = gy \<and> px div cellSize = gx)" if "gx < ?gw" for gx
  proof -
    have "gy * ?gw + gx < ?gw * ceilCells (info_height img)"
      using assms that by (rule cell_index_in_grid)
    then have "(markCells img ! (gy * ?gw + gx) = 1) =
           (\<exists>py < info_height img. \<exists>px < info_width img.
              pixelDark (data img) (py * info_width img + px)
              \<and> (py div cellSize) * ?gw + px div cellSize = gy * ?gw + gx)"
      by (rule markCells_nth)
    also have "\<dots> = (\<exists>py < info_height img. \<exists>px < info_width img.
              pixelDark (data img) (py * info_width img + px)
              \<and> py div cellSize = gy \<and> px div cellSize = gx)"
      using that cell_decompose [of _ ?gw _ gy gx] px_cell_in_grid [of _ "info_width img"]
      by (metis (no_types, lifting))
    finally show ?thesis .
  qed
  show ?thesis
  proof
    assume empty: "isRowEmpty (markCells img) ?gw gy"
    show "\<not> (\<exists>py < info_height img. \<exists>px < info_width img.
                 pixelDark (data img) (py * info_width img + px) \<and> py div cellSize = gy)"
    proof
      assume "\<exists>py < info_height img. \<exists>px < info_width img.
                 pixelDark (data img) (py * info_width img + px) \<and> py div cellSize = gy"
      then obtain py px where p: "py < info_height img" "px < info_width img"
          "pixelDark (data img) (py * info_width img + px)" "py div cellSize = gy"
        by blast
      have gx: "px div cellSize < ?gw"
        using p(2) by (rule px_cell_in_grid)
      from cell [OF gx] p have "markCells img ! (gy * ?gw + px div cellSize) = 1"
        by blast
      moreover from empty gx have "markCells img ! (gy * ?gw + px div cellSize) \<noteq> 1"
        by (simp add: isRowEmpty_def list_all_iff)
      ultimately show False by simp
    qed
  next
    assume none: "\<not> (\<exists>py < info_height img. \<exists>px < info_width img.
                 pixelDark (data img) (py * info_width img + px) \<and> py div cellSize = gy)"
    have "markCells img ! (gy * ?gw + gx) \<noteq> 1" if "gx < ?gw" for gx
      using cell [OF that] none by blast
    then show "isRowEmpty (markCells img) ?gw gy"
      by (simp add: isRowEmpty_def list_all_iff)
  qed
qed

lemma darkBand_pixelDark:
  assumes band: "darkBand img a h b" and py: "py < info_height img" and px: "px < info_width img"
  shows "pixelDark (data img) (py * info_width img + px) = (a \<le> py \<and> py < a + h)"
proof -
  have "py * info_width img + px < info_width img * info_height img"
    using py px by (rule cell_index_in_grid)
  then have "py * info_width img + px < length (data img)"
    using band by (simp add: darkBand_def)
  moreover have "(data img ! (py * info_width img + px) < 200) = (a \<le> py \<and> py < a + h)"
    using band py px by (simp add: darkBand_def)
  ultimately show ?thesis
    by (simp add: pixelDark_def)
qed

lemma ceilCells_eq: "ceilCells n = (n + 4) div 5"
  by (simp add: ceilCells_def cellSize_def)

lemma band_row_arith:
  fixes a h gy :: nat
  assumes "0 < h"
  shows "(\<exists>py. a \<le> py \<and> py < a + h \<and> py div 5 = gy) = (a div 5 \<le> gy \<and> gy < (a + h + 4) div 5)"
proof
  assume "\<exists>py. a \<le> py \<and> py < a + h \<and> py div 5 = gy"
  then obtain py where "a \<le> py" "py < a + h" "py div 5 = gy" by blast
  then show "a div 5 \<le> gy \<and> gy < (a + h + 4) div 5" by auto
next
  assume r: "a div 5 \<le> gy \<and> gy < (a + h + 4) div 5"
  show "\<exists>py. a \<le> py \<and> py < a + h \<and> py div 5 = gy"
  proof (cases "a \<le> 5 * gy")
    case True
    with r assms have "5 * gy < a + h" by auto
    with True have "a \<le> 5 * gy \<and> 5 * gy < a + h \<and> (5 * gy) div 5 = gy" by simp
    then show ?thesis by blast
  next
    case False
    with r assms have "a div 5 = gy" by auto
    with assms have "a \<le> a \<and> a < a + h \<and> a div 5 = gy" by simp
    then show ?thesis by blast
  qed
qed

lemma darkBand_row:
  assumes band: "darkBand img a h b" and w: "0 < info_width img" and h: "0 < h"
    and gy: "gy < ceilCells (info_height img)"
  shows "isRowEmpty (markCells img) (ceilCells (info_width img)) gy =
           (\<not> (a div cellSize \<le> gy \<and> gy < ceilCells (a + h)))"
proof -
  have H: "info_height img = a + h + b"
    using band by (simp add: darkBand_def)
  have "(\<exists>py < info_height img. \<exists>px < info_width img.
           pixelDark (data img) (py * info_width img + px) \<and> py div cellSize = gy)
        = (\<exists>py. a \<le> py \<and> py < a + h \<and> py div 5 = gy)"
  proof
    assume "\<exists>py < info_height img. \<exists>px < info_width img.
           pixelDark (data img) (py * info_width img + px) \<and> py div cellSize = gy"
    then obtain py px where p: "py < info_height img" "px < info_width img"
        "pixelDark (data img) (py * info_width img + px)" "py div cellSize = gy"
      by blast
    from darkBand_pixelDark [OF band p(1) p(2)] p(3) p(4)
    show "\<exists>py. a \<le> py \<and> py < a + h \<and> py div 5 = gy"
      by (auto simp: cellSize_def)
  next
    assume "\<exists>py. a \<le> py \<and> py < a + h \<and> py div 5 = gy"
    then obtain py where p: "a \<le> py" "py < a + h" "py div 5 = gy" by blast
    then have lt: "py < info_height img" using H by simp
    from darkBand_pixelDark [OF band lt w] p
    have "pixelDark (data img) (py * info_width img + 0) \<and> py div cellSize = gy"
      by (simp add: cellSize_def)
    with lt w show "\<exists>py < info_height img. \<exists>px < info_width img.
           pixelDark (data img) (py * info_width img + px) \<and> py div cellSize = gy"
      by blast
  qed
  also have "\<dots> = (a div cellSize \<le> gy \<and> gy < ceilCells (a + h))"
    unfolding ceilCells_eq cellSize_def by (rule band_row_arith [OF h])
  finally show ?thesis
    using isRowEmpty_markCells [OF gy] by simp
qed

lemma scan_dark_rows:
  assumes "\<forall>gy \<in> {i..<j}. \<not> isRowEmpty grid gw gy" "i < j" "0 < ceilMinHeight mh"
  shows "fold (scanRow grid gw w mh) [i..<j] st
           = st\<lparr>regions := pushIfTall w mh st, currentEmptyHeight := 0\<rparr>"
  using assms(1,2)
proof (induction j)
  case 0
  then show ?case by simp
next
  case (Suc j)
  from Suc.prems have row: "\<not> isRowEmpty grid gw j" by simp
  show ?case
  proof (cases "i = j")
    case True
    with row show ?thesis by (simp add: scanRow_def)
  next
    case False
    with Suc.prems have lt: "i < j" by simp
    from Suc.prems have "\<forall>gy \<in> {i..<j}. \<not> isRowEmpty grid gw gy" by simp
    from Suc.IH [OF this lt] row lt assms(3) show ?thesis
      by (simp add: scanRow_def pushIfTall_def)
  qed
qed

lemma upt_split: "i \<le> j \<Longrightarrow> j \<le> k \<Longrightarrow> [i..<k] = [i..<j] @ [j..<k]"
  using upt_add_eq_append [of i j "k - j"] by simp

lemma scanRows_darkBand:
  assumes band: "darkBand img a h b" and w: "0 < info_width img" and h: "0 < h"
    and mh: "0 < ceilMinHeight mh"
  shows "scanRows (markCells img) (ceilCells (info_width img)) (ceilCells (info_height img))
           (info_width img) mh =
         (if ceilMinHeight mh \<le> int (a div cellSize)
          then [bandRun (info_width img) 0 (a div cellSize)] else [])
         @ (if ceilMinHeight mh \<le> int (ceilCells (a + h + b) - ceilCells (a + h))
            then [bandRun (info_width img) (ceilCells (a + h))
                    (ceilCells (a + h + b) - ceilCells (a + h))] else [])"
proof -
  let ?W = "info_width img" and ?gw = "ceilCells (info_width img)"
  let ?gh = "ceilCells (info_height img)"
  let ?A = "a div cellSize" and ?B = "ceilCells (a + h)"
  let ?step = "scanRow (markCells img) ?gw ?W mh"
  let ?st0 = "\<lparr>currentEmptyHeight = 0, startY = 0, regions = []\<rparr>"
  have H: "info_height img = a + h + b"
    using band by (simp add: darkBand_def)
  have AB: "?A < ?B"
    using h unfolding ceilCells_eq cellSize_def by auto
  have Bgh: "?B \<le> ?gh"
    unfolding H ceilCells_eq by auto
  have row: "isRowEmpty (markCells img) ?gw gy = (\<not> (?A \<le> gy \<and> gy < ?B))" if "gy < ?gh" for gy
    using darkBand_row [OF band w h that] .
  have top: "\<forall>gy \<in> {0..<?A}. isRowEmpty (markCells img) ?gw gy"
    using row AB Bgh by auto
  have mid: "\<forall>gy \<in> {?A..<?B}. \<not> isRowEmpty (markCells img) ?gw gy"
    using row AB Bgh by auto
  have bot: "\<forall>gy \<in> {?B..<?gh}. isRowEmpty (markCells img) ?gw gy"
    using row AB Bgh by auto
  define st1 where "st1 = fold ?step [0..<?A] ?st0"
  define st2 where "st2 = fold ?step [?A..<?B] st1"
  define st3 where "st3 = fold ?step [?B..<?gh] st2"
  have split: "[0..<?gh] = [0..<?A] @ [?A..<?B] @ [?B..<?gh]"
    using AB Bgh upt_split [of 0 ?A ?gh] upt_split [of ?A ?B ?gh] by simp
  have all: "fold ?step [0..<?gh] ?st0 = st3"
    unfolding split st3_def st2_def st1_def by simp
  have s1: "st1 = \<lparr>currentEmptyHeight = ?A, startY = 0, regions = []\<rparr>"
    unfolding st1_def using scan_empty_rows [OF top, of ?W mh ?st0] by simp
  have s2: "st2 = \<lparr>currentEmptyHeight = 0, startY = 0,
                   regions = (if ceilMinHeight mh \<le> int ?A then [bandRun ?W 0 ?A] else [])\<rparr>"
    unfolding st2_def using scan_dark_rows [OF mid AB mh, of ?W st1]
    by (simp add: s1 pushIfTall_def emptyRun_def bandRun_def)
  have s3: "st3 = \<lparr>currentEmptyHeight = ?gh - ?B, startY = (if ?B < ?gh then ?B else 0),
                   regions = (if ceilMinHeight mh \<le> int ?A then [bandRun ?W 0 ?A] else [])\<rparr>"
    unfolding st3_def using scan_empty_rows [OF bot Bgh, of ?W mh st2]
    by (simp add: s2)
  have pos: "?B < ?gh" if "ceilMinHeight mh \<le> int (?gh - ?B)"
    using that mh by simp
  show ?thesis
    unfolding scanRows_def all s3 using pos
    by (auto simp: pushIfTall_def emptyRun_def bandRun_def H)
qed

lemma mergeRegions_pair:
  "mergeRegions [r1, r2] =
     (if ypos r2 - (ypos r1 + height r1) < int (4 * cellSize)
      then [r1\<lparr>height := ypos r2 + height r2 - ypos r1\<rparr>] else [r1, r2])"
  by (simp add: mergeRegions_def mult.commute)

lemma sort_key_pair: "sort_key f [u, v] = (if f u \<le> f v then [u, v] else [v, u])"
  by simp





lemma banded_example:
  "darkBand \<lparr>info_width = 100, info_height = 86,
             data = replicate 3300 255 @ replicate 2000 0 @ replicate 3300 255\<rparr> 33 20 33"
  by (auto simp: darkBand_def nth_append)



text \<open>
  Claim C5. A raster whose pixels all have intensity at least 200, at least
  \<^verbatim>\<open>minHeight\<close> rows high, gives exactly one region: it starts at the origin, has the
  width of the image, and its height is the height of the image rounded up to the next
  multiple of the cell size.
\<close>

theorem all_white_single_region:
  assumes "\<forall>p \<in> set (data img). p \<ge> 200" and "minHeight \<le> int (info_height img)"
  shows "findEmptyRegions img minWidth minHeight =
           [\<lparr>xpos = 0, ypos = 0, width = int (info_width img),
             height = int (ceilCells (info_height img) * cellSize),
             rtype = ''rectangle'', color = ''blue'', strokeWidth = 1,
             area = int (info_width img) * int (ceilCells (info_height img) * cellSize)\<rparr>]
         \<and> info_height img \<le> ceilCells (info_height img) * cellSize
         \<and> ceilCells (info_height img) * cellSize < info_height img + cellSize"
  using findEmptyRegions_all_white [OF assms] ceilCells_bounds [of "info_height img"] by simp

text \<open>The white image of 1200 by 800 pixels.\<close>

theorem all_white_single_region_witness:
  "list_all (\<lambda>p. p \<ge> 200) (replicate (1200 * 800) (255::byte)) \<and> (30::int) \<le> int 800
   \<and> findEmptyRegions \<lparr>info_width = 1200, info_height = 800, data = replicate (1200 * 800) 255\<rparr>
        100 30
      = [\<lparr>xpos = 0, ypos = 0, width = 1200, height = 800, rtype = ''rectangle'',
          color = ''blue'', strokeWidth = 1, area = 960000\<rparr>]"
proof -
  let ?img = "\<lparr>info_width = 1200, info_height = 800, data = replicate (1200 * 800) (255::byte)\<rparr>"
  have w: "\<forall>p \<in> set (data ?img). p \<ge> 200" and t: "(30::int) \<le> int (info_height ?img)"
    by simp_all
  from all_white_single_region [OF w t, of 100] show ?thesis
    by (simp add: ceilCells_eq cellSize_def list_all_iff)
qed

lemma sorted_by_area:
  "sorted_wrt (\<lambda>a b. area a \<ge> area b) (sort_key (\<lambda>r. - area r) (rs :: rectangle list))"
proof -
  have "sorted (map (\<lambda>r. - area r) (sort_key (\<lambda>r. - area r) rs))"
    by (rule sorted_sort_key)
  then show ?thesis
    by (simp add: sorted_wrt_map)
qed

text \<open>
  Claim C4. The list returned by \<^verbatim>\<open>findEmptyRegions\<close> is sorted by descending area, the
  area of a rectangle is its width times its height, and no rectangle is lower than
  \<^verbatim>\<open>minHeight\<close>.
\<close>

theorem findEmptyRegions_sorted_tall:
  "sorted_wrt (\<lambda>a b. area a \<ge> area b) (findEmptyRegions img minWidth minHeight)
   \<and> (\<forall>r \<in> set (findEmptyRegions img minWidth minHeight).
         area r = width r * height r \<and> height r \<ge> minHeight)"
proof -
  have "sorted_wrt (\<lambda>a b. area a \<ge> area b) (findEmptyRegions img minWidth minHeight)"
    by (simp add: findEmptyRegions_def Let_def sorted_by_area)
  moreover have "\<forall>r \<in> set (findEmptyRegions img minWidth minHeight).
         area r = width r * height r \<and> height r \<ge> minHeight"
    by (auto simp: findEmptyRegions_def Let_def toRectangle_def)
  ultimately show ?thesis by blast
qed

text \<open>An image with two regions: the larger one comes first.\<close>

theorem findEmptyRegions_sorted_tall_witness:
  "findEmptyRegions \<lparr>info_width = 100, info_height = 90,
       data = replicate 3000 255 @ replicate 2000 0 @ replicate 4000 255\<rparr> 100 30
     = [\<lparr>xpos = 0, ypos = 50, width = 100, height = 40, rtype = ''rectangle'',
         color = ''blue'', strokeWidth = 1, area = 4000\<rparr>,
        \<lparr>xpos = 0, ypos = 0, width = 100, height = 30, rtype = ''rectangle'',
         color = ''blue'', strokeWidth = 1, area = 3000\<rparr>]
   \<and> sorted_wrt (\<lambda>a b. area a \<ge> area b)
        (findEmptyRegions \<lparr>info_width = 100, info_height = 90,
           data = replicate 3000 255 @ replicate 2000 0 @ replicate 4000 255\<rparr> 100 30)
   \<and> list_all (\<lambda>r. area r = width r * height r \<and> height r \<ge> 30)
        (findEmptyRegions \<lparr>info_width = 100, info_height = 90,
           data = replicate 3000 255 @ replicate 2000 0 @ replicate 4000 255\<rparr> 100 30)"
proof -
  let ?img = "\<lparr>info_width = 100, info_height = 90,
       data = replicate 3000 255 @ replicate 2000 0 @ replicate 4000 255\<rparr>"
  have band: "darkBand ?img 30 20 40"
    by (auto simp: darkBand_def nth_append)
  have thr: "ceilMinHeight 30 = 6"
    by (simp add: ceilMinHeight_def cellSize_def)
  have found: "scanRows (markCells ?img) (ceilCells (info_width ?img)) (ceilCells (info_height ?img))
          (info_width ?img) 30 = [bandRun 100 0 6, bandRun 100 10 8]"
    by (subst scanRows_darkBand [OF band]) (simp_all add: thr ceilCells_eq cellSize_def)
  have merged: "mergeRegions [bandRun 100 0 6, bandRun 100 10 8]
                  = [bandRun 100 0 6, bandRun 100 10 8]"
    by (simp add: mergeRegions_pair bandRun_def cellSize_def)
  have out: "findEmptyRegions ?img 100 30
     = [\<lparr>xpos = 0, ypos = 50, width = 100, height = 40, rtype = ''rectangle'',
         color = ''blue'', strokeWidth = 1, area = 4000\<rparr>,
        \<lparr>xpos = 0, ypos = 0, width = 100, height = 30, rtype = ''rectangle'',
         color = ''blue'', strokeWidth = 1, area = 3000\<rparr>]"
    unfolding findEmptyRegions_def Let_def found merged
    by (simp add: bandRun_def toRectangle_def cellSize_def)
  from findEmptyRegions_sorted_tall [of ?img 100 30] out show ?thesis
    by (simp add: list_all_iff)
qed

section \<open>Properties of the line breaker\<close>

text \<open>
  \<^verbatim>\<open>wrapText\<close> tests the width with the space included, so each of its lines is within
  \<^verbatim>\<open>maxWidth\<close> or holds a single word.
\<close>

lemma wrapTextStep_fits:
  assumes "list_all (lineFits maxWidth) (wt_lines st)" "lineFits maxWidth (wt_currentLine st)"
  shows "list_all (lineFits maxWidth) (wt_lines (wrapTextStep str maxWidth fontSize x0 y0 cs bs iw st))
         \<and> lineFits maxWidth (wt_currentLine (wrapTextStep str maxWidth fontSize x0 y0 cs bs iw st))"
  using assms by (auto simp: wrapTextStep_def Let_def lineFits_def)

lemma wrapText_fold_fits:
  assumes "list_all (lineFits maxWidth) (wt_lines st)" "lineFits maxWidth (wt_currentLine st)"
  shows "list_all (lineFits maxWidth)
           (wt_lines (fold (wrapTextStep str maxWidth fontSize x0 y0 cs bs) iws st))
         \<and> lineFits maxWidth
           (wt_currentLine (fold (wrapTextStep str maxWidth fontSize x0 y0 cs bs) iws st))"
  using assms
proof (induction iws arbitrary: st)
  case Nil
  then show ?case by simp
next
  case (Cons iw iws)
  from wrapTextStep_fits [OF Cons.prems]
  show ?case by (simp add: Cons.IH)
qed

lemma wrapText_lines_fit:
  "list_all (lineFits maxWidth) (wrapText str maxWidth fontSize x0 y0 cs bs)"
proof -
  let ?init = "\<lparr>wt_lines = [],
                wt_currentLine = \<lparr>wl_x = x0, wl_y = y0, segments = [], wl_width = 0,
                                  lineHeight = fontSize * (13 / 10)\<rparr>,
                textPosition = 0\<rparr>"
  have "list_all (lineFits maxWidth) (wt_lines ?init)" "lineFits maxWidth (wt_currentLine ?init)"
    by (simp_all add: lineFits_def)
  from wrapText_fold_fits [OF this, of str fontSize x0 y0 cs bs "enumerate 0 (splitSpaces str)"]
  show ?thesis
    by (simp add: wrapText_def Let_def)
qed

text \<open>
  Claim C1 says that no line of two or more words is wider than the effective width. The
  loop tests \<^verbatim>\<open>currentWidth + wordWidth <= effectiveWidth\<close> without the space it then
  adds. For the region of 140 by 110 pixels and the text \<^verbatim>\<open>aaaa a\<close> the solver returns the
  size 41, the effective width is 119, and the only line holds both words with the
  estimated width 125.05. \<^verbatim>\<open>wrapText\<close> breaks the same text into two lines.
\<close>

theorem wrap_line_exceeds_width:
  "normalFontSize (calculateOptimalFontSize \<lparr>xpos = 0, ypos = 0, width = 140, height = 110\<rparr>
      [Some \<lparr>para_text = ''aaaa a'', colorSegments = [], boldSegments = []\<rparr>]) = Num 41
   \<and> boldFontSize (calculateOptimalFontSize \<lparr>xpos = 0, ypos = 0, width = 140, height = 110\<rparr>
      [Some \<lparr>para_text = ''aaaa a'', colorSegments = [], boldSegments = []\<rparr>]) = Num (451 / 10)
   \<and> effectiveWidthOf \<lparr>xpos = 0, ypos = 0, width = 140, height = 110\<rparr> = 119
   \<and> wrapAll 119 41 (451 / 10) [\<lparr>para_text = ''aaaa a'', colorSegments = [], boldSegments = []\<rparr>]
       = [\<lparr>line_text = ''aaaa a'', line_color = None, isNewParagraph = False, isBold = False,
           isParagraphSpace = False,
           line_colorSegments =
             [\<lparr>lc_text = ''aaaa'', lc_start = 0, lc_color = ''#000000''\<rparr>,
              \<lparr>lc_text = ''a'', lc_start = 5, lc_color = ''#000000''\<rparr>]\<rparr>]
   \<and> lineWidthOf 41 [''aaaa'', ''a''] = 2501 / 20
   \<and> (119::rat) < 2501 / 20
   \<and> map (\<lambda>l. map st_text (segments l)) (wrapText ''aaaa a'' 119 41 0 0 [] [])
       = [[''aaaa''], [''a'']]"
  by code_simp

section \<open>Properties of the compositor\<close>













end
